theory Spec2Isabelle
  imports Main "HOL-Library.AList" "HOL-Library.Word"
begin

section \<open>Supervisor PIN authentication and the in-memory token store of server.js\<close>

text \<open>
  The development embeds the authentication block of \<^verbatim>\<open>src/server.js\<close> (lines 135-174 and
  265-388; \<^verbatim>\<open>src/unnamed/part_002\<close> holds the same code at lines 550-589 and 691-803):
  the module-level \<^verbatim>\<open>activeTokens\<close> map, \<^verbatim>\<open>hashPin\<close>, \<^verbatim>\<open>generateToken\<close>,
  \<^verbatim>\<open>validateToken\<close>, the cleanup callback given to \<^verbatim>\<open>setInterval\<close>, and the three
  request handlers \<^verbatim>\<open>/api/auth/verify-pin\<close>, \<^verbatim>\<open>/api/auth/validate-token\<close> and
  \<^verbatim>\<open>/api/auth/logout\<close>.

  Conventions of the embedding.
  \<^item> Every \<^verbatim>\<open>Date.now()\<close> of the source is an explicit integer argument (milliseconds);
    a function that reads the clock twice takes two readings.
    Timestamps and lifetimes are of type \<^typ>\<open>int\<close>: JavaScript adds and compares
    integers of magnitude below \<open>2 ^ 53\<close> exactly.
  \<^item> The mutable module state (the map and the console) is passed in and returned.
  \<^item> SHA-256 and the operating system's random source are not part of the repository:
    the digest is a function parameter \<open>sha\<close>, the outcome of
    \<^verbatim>\<open>crypto.randomBytes(32)\<close> is an argument that is either an exception or the bytes.
  \<^item> A JavaScript string is a \<^typ>\<open>string\<close>, one \<^typ>\<open>char\<close> per code unit.
\<close>

subsection \<open>JavaScript values arriving in a request body\<close>

text \<open>
  \<^verbatim>\<open>const { pin } = req.body\<close> and \<^verbatim>\<open>const { token } = req.body\<close> read a field of the
  parsed JSON body: any JSON value, or \<^verbatim>\<open>undefined\<close> when the field is missing.
  Numbers are kept as integers (a JSON fraction behaves like any non-zero number in all
  the tests below), arrays and objects are one constructor.
\<close>

datatype jsval =
    JUndefined
  | JNull
  | JBool bool
  | JNum int
  | JStr string
  | JObj

text \<open>\<^verbatim>\<open>!v\<close> is \<open>\<not> truthy v\<close>.\<close>

fun truthy :: "jsval \<Rightarrow> bool" where
  "truthy JUndefined = False"
| "truthy JNull = False"
| "truthy (JBool b) = b"
| "truthy (JNum n) = (n \<noteq> 0)"
| "truthy (JStr s) = (s \<noteq> [])"
| "truthy JObj = True"

text \<open>Exceptions that the \<^verbatim>\<open>try\<close> blocks of the handlers catch.\<close>

datatype js_error = TypeError | RandomSourceError

subsection \<open>Sessions and the token map\<close>

text \<open>The object literal stored by \<^verbatim>\<open>activeTokens.set\<close> (server.js 297-301).\<close>

record session =
  createdAt :: int
  expiresAt :: int
  ip :: string

text \<open>
  \<^verbatim>\<open>const activeTokens = new Map()\<close>: a JavaScript \<^verbatim>\<open>Map\<close> keeps its entries in insertion
  order, one entry per key. It is an association list; the only keys ever inserted are the
  strings of \<^verbatim>\<open>generateToken\<close>, so a lookup with a value that is not a string finds
  nothing.
\<close>

type_synonym token_map = "(string \<times> session) list"

fun Map_has :: "token_map \<Rightarrow> jsval \<Rightarrow> bool" where
  "Map_has m (JStr k) = (k \<in> set (map fst m))"
| "Map_has m v = False"

fun Map_get :: "token_map \<Rightarrow> jsval \<Rightarrow> session option" where
  "Map_get m (JStr k) = map_of m k"
| "Map_get m v = None"

definition Map_set :: "token_map \<Rightarrow> string \<Rightarrow> session \<Rightarrow> token_map" where
  "Map_set m k v = AList.update k v m"

fun Map_delete :: "token_map \<Rightarrow> jsval \<Rightarrow> token_map" where
  "Map_delete m (JStr k) = AList.delete k m"
| "Map_delete m v = m"

text \<open>The well-formed maps: one entry per key.\<close>

definition unique_keys :: "token_map \<Rightarrow> bool" where
  "unique_keys m = distinct (map fst m)"

subsection \<open>validateToken (server.js 153-163)\<close>

text \<open>
  \<^verbatim>\<open>
  function validateToken(token) {
      if (!token || !activeTokens.has(token)) { return false; }
      const tokenData = activeTokens.get(token);
      if (Date.now() > tokenData.expiresAt) {
          activeTokens.delete(token);
          return false;
      }
      return true;
  }
  \<close>
  Reading \<^verbatim>\<open>expiresAt\<close> of \<^verbatim>\<open>undefined\<close> would throw a TypeError; that is the
  \<open>None\<close> branch.
\<close>

definition validateToken :: "token_map \<Rightarrow> int \<Rightarrow> jsval \<Rightarrow> js_error + (bool \<times> token_map)" where
  "validateToken activeTokens now token =
     (if \<not> truthy token \<or> \<not> Map_has activeTokens token then Inr (False, activeTokens)
      else case Map_get activeTokens token of
             None \<Rightarrow> Inl TypeError
           | Some tokenData \<Rightarrow>
               if now > expiresAt tokenData
               then Inr (False, Map_delete activeTokens token)
               else Inr (True, activeTokens))"

subsection \<open>The periodic cleanup (server.js 166-173)\<close>

text \<open>
  \<^verbatim>\<open>
  setInterval(() => {
      const now = Date.now();
      for (const [token, data] of activeTokens.entries()) {
          if (now > data.expiresAt) { activeTokens.delete(token); }
      }
  }, 60000);
  \<close>
  The loop visits the entries in order; deleting the entry being visited does not disturb
  the iteration of a \<^verbatim>\<open>Map\<close>. \<open>sweep_loop\<close> walks the entries still to be visited and
  carries the map being mutated.
\<close>

fun sweep_loop :: "int \<Rightarrow> (string \<times> session) list \<Rightarrow> token_map \<Rightarrow> token_map" where
  "sweep_loop now [] activeTokens = activeTokens"
| "sweep_loop now ((token, data) # rest) activeTokens =
     sweep_loop now rest
       (if now > expiresAt data then Map_delete activeTokens (JStr token) else activeTokens)"

definition sweep :: "int \<Rightarrow> token_map \<Rightarrow> token_map" where
  "sweep now activeTokens = sweep_loop now activeTokens activeTokens"

subsection \<open>Configuration (server.js 138-139, 143)\<close>

text \<open>
  The three environment variables the block reads. \<open>env_TOKEN_EXPIRY_MS\<close> is the value of
  \<^verbatim>\<open>parseInt(process.env.TOKEN_EXPIRY_MS)\<close>: \<open>None\<close> is \<^verbatim>\<open>NaN\<close> (variable unset or not
  starting with a number), \<open>Some n\<close> the integer read, which may be negative. The other two
  are the variable's string, \<open>None\<close> when unset.
\<close>

record config =
  env_TOKEN_EXPIRY_MS :: "int option"
  env_SUPERVISOR_PIN_HASH :: "string option"
  env_PIN_SALT :: "string option"

text \<open>\<^verbatim>\<open>parseInt(process.env.TOKEN_EXPIRY_MS) || 8 * 60 * 60 * 1000\<close>: \<^verbatim>\<open>NaN\<close> and 0 are falsy.\<close>

definition TOKEN_EXPIRY_MS :: "config \<Rightarrow> int" where
  "TOKEN_EXPIRY_MS cfg =
     (case env_TOKEN_EXPIRY_MS cfg of
        None \<Rightarrow> 8 * 60 * 60 * 1000
      | Some n \<Rightarrow> if n \<noteq> 0 then n else 8 * 60 * 60 * 1000)"

text \<open>\<^verbatim>\<open>s || d\<close> on an environment string: unset and the empty string are falsy.\<close>

definition env_or :: "string option \<Rightarrow> string \<Rightarrow> string" where
  "env_or v d = (case v of None \<Rightarrow> d | Some s \<Rightarrow> if s \<noteq> [] then s else d)"

text \<open>
  \<^verbatim>\<open>
  function hashPin(pin) {
      const salt = process.env.PIN_SALT || 'cws-safety-2024';
      return crypto.createHash('sha256').update(pin + salt).digest('hex');
  }
  \<close>
  \<open>sha\<close> stands for the hexadecimal SHA-256 digest.
\<close>

definition hashPin :: "(string \<Rightarrow> string) \<Rightarrow> config \<Rightarrow> string \<Rightarrow> string" where
  "hashPin sha cfg pin =
     (let salt = env_or (env_PIN_SALT cfg) ''cws-safety-2024'' in sha (pin @ salt))"

text \<open>\<^verbatim>\<open>process.env.SUPERVISOR_PIN_HASH || hashPin('4698')\<close>\<close>

definition SUPERVISOR_PIN_HASH :: "(string \<Rightarrow> string) \<Rightarrow> config \<Rightarrow> string" where
  "SUPERVISOR_PIN_HASH sha cfg =
     env_or (env_SUPERVISOR_PIN_HASH cfg) (hashPin sha cfg ''4698'')"

subsection \<open>generateToken (server.js 148-150)\<close>

text \<open>
  \<^verbatim>\<open>return crypto.randomBytes(32).toString('hex');\<close>
  Each byte becomes two lower-case hexadecimal digits. The argument is what
  \<^verbatim>\<open>crypto.randomBytes(32)\<close> did: threw, or returned bytes.
\<close>

definition hex_digit :: "nat \<Rightarrow> char" where
  "hex_digit n = ''0123456789abcdef'' ! n"

definition hex_byte :: "8 word \<Rightarrow> string" where
  "hex_byte b = [hex_digit (unat b div 16), hex_digit (unat b mod 16)]"

definition toString_hex :: "8 word list \<Rightarrow> string" where
  "toString_hex bytes = concat (map hex_byte bytes)"

definition generateToken :: "js_error + 8 word list \<Rightarrow> js_error + string" where
  "generateToken randomBytes =
     (case randomBytes of Inl e \<Rightarrow> Inl e | Inr bytes \<Rightarrow> Inr (toString_hex bytes))"

subsection \<open>Responses and console lines\<close>

text \<open>
  The JSON bodies the three handlers send, one constructor per shape:
  \<^item> \<open>PinAccepted token expiresAt expiresIn\<close>: \<^verbatim>\<open>{success: true, token, expiresAt, expiresIn}\<close>
  \<^item> \<open>Failure error\<close>: \<^verbatim>\<open>{success: false, error}\<close>
  \<^item> \<open>TokenValid expiresAt remainingMs\<close>: \<^verbatim>\<open>{success: true, valid: true, expiresAt, remainingMs}\<close>
  \<^item> \<open>TokenInvalid error\<close>: \<^verbatim>\<open>{success: true, valid: false, error}\<close>
  \<^item> \<open>ValidationFailure error\<close>: \<^verbatim>\<open>{success: false, valid: false, error}\<close>
  \<^item> \<open>LoggedOut message\<close>: \<^verbatim>\<open>{success: true, message}\<close>
  \<^verbatim>\<open>res.json\<close> without \<^verbatim>\<open>res.status\<close> sends status 200.
\<close>

datatype json_body =
    PinAccepted string int int
  | Failure string
  | TokenValid int int
  | TokenInvalid string
  | ValidationFailure string
  | LoggedOut string

record response =
  status :: nat
  body :: json_body

text \<open>What a handler writes with \<^verbatim>\<open>console.log\<close> and \<^verbatim>\<open>console.error\<close>.\<close>

datatype log_line =
    Authenticated string
  | FailedAttempt string
  | TokenInvalidated
  | AuthenticationError js_error
  | ValidationError js_error

subsection \<open>POST /api/auth/verify-pin (server.js 277-325)\<close>

text \<open>
  The format test is \<^verbatim>\<open>!pin || typeof pin !== 'string' || pin.length !== 4\<close>: every value
  that is not a string fails it (second disjunct), a string fails it when it is empty or
  its length is not 4. \<open>now1\<close> is the \<^verbatim>\<open>Date.now()\<close> of line 294, \<open>now2\<close> the one of
  line 298, \<open>req_ip\<close> is \<^verbatim>\<open>req.ip\<close>. An exception inside \<^verbatim>\<open>try\<close> is answered with
  status 500.
\<close>

definition verify_pin ::
  "(string \<Rightarrow> string) \<Rightarrow> config \<Rightarrow> js_error + 8 word list \<Rightarrow> int \<Rightarrow> int \<Rightarrow> string
     \<Rightarrow> token_map \<Rightarrow> jsval \<Rightarrow> response \<times> token_map \<times> log_line list" where
  "verify_pin sha cfg randomBytes now1 now2 req_ip activeTokens pin =
     (case pin of
        JStr p \<Rightarrow>
          if \<not> truthy pin \<or> length p \<noteq> 4
          then (\<lparr>status = 400, body = Failure ''Invalid PIN format. PIN must be 4 digits.''\<rparr>,
                activeTokens, [])
          else
            let providedPinHash = hashPin sha cfg p in
            if providedPinHash = SUPERVISOR_PIN_HASH sha cfg
            then (case generateToken randomBytes of
                    Inl e \<Rightarrow>
                      (\<lparr>status = 500, body = Failure ''Authentication service error''\<rparr>,
                       activeTokens, [AuthenticationError e])
                  | Inr token \<Rightarrow>
                      let expires = now1 + TOKEN_EXPIRY_MS cfg in
                      (\<lparr>status = 200,
                        body = PinAccepted token expires (TOKEN_EXPIRY_MS cfg)\<rparr>,
                       Map_set activeTokens token
                         \<lparr>createdAt = now2, expiresAt = expires, ip = req_ip\<rparr>,
                       [Authenticated req_ip]))
            else (\<lparr>status = 401, body = Failure ''Invalid PIN''\<rparr>,
                  activeTokens, [FailedAttempt req_ip])
      | _ \<Rightarrow>
          (\<lparr>status = 400, body = Failure ''Invalid PIN format. PIN must be 4 digits.''\<rparr>,
           activeTokens, []))"

subsection \<open>POST /api/auth/validate-token (server.js 328-365)\<close>

text \<open>
  \<open>now1\<close> is the clock read inside \<^verbatim>\<open>validateToken\<close>, \<open>now2\<close> the one read for
  \<^verbatim>\<open>remainingMs\<close>.
\<close>

definition validate_token ::
  "token_map \<Rightarrow> int \<Rightarrow> int \<Rightarrow> jsval \<Rightarrow> response \<times> token_map \<times> log_line list" where
  "validate_token activeTokens now1 now2 token =
     (if \<not> truthy token
      then (\<lparr>status = 400, body = ValidationFailure ''Token required''\<rparr>, activeTokens, [])
      else case validateToken activeTokens now1 token of
             Inl e \<Rightarrow>
               (\<lparr>status = 500, body = ValidationFailure ''Validation service error''\<rparr>,
                activeTokens, [ValidationError e])
           | Inr (isValid, tokens') \<Rightarrow>
               if isValid
               then (case Map_get tokens' token of
                       None \<Rightarrow>
                         (\<lparr>status = 500, body = ValidationFailure ''Validation service error''\<rparr>,
                          tokens', [ValidationError TypeError])
                     | Some tokenData \<Rightarrow>
                         (\<lparr>status = 200,
                           body = TokenValid (expiresAt tokenData) (expiresAt tokenData - now2)\<rparr>,
                          tokens', []))
               else (\<lparr>status = 200, body = TokenInvalid ''Token expired or invalid''\<rparr>,
                     tokens', []))"

subsection \<open>POST /api/auth/logout (server.js 368-388)\<close>

text \<open>
  \<^verbatim>\<open>
  if (token && activeTokens.has(token)) {
      activeTokens.delete(token);
      console.log(`Token invalidated (logout)`);
  }
  return res.json({ success: true, message: 'Logged out successfully' });
  \<close>
\<close>

definition logout :: "token_map \<Rightarrow> jsval \<Rightarrow> response \<times> token_map \<times> log_line list" where
  "logout activeTokens token =
     (if truthy token \<and> Map_has activeTokens token
      then (\<lparr>status = 200, body = LoggedOut ''Logged out successfully''\<rparr>,
            Map_delete activeTokens token, [TokenInvalidated])
      else (\<lparr>status = 200, body = LoggedOut ''Logged out successfully''\<rparr>,
            activeTokens, []))"

text \<open>The map a handler leaves behind.\<close>

definition tokens_after :: "response \<times> token_map \<times> log_line list \<Rightarrow> token_map" where
  "tokens_after r = fst (snd r)"

subsection \<open>The session invariant of the specification\<close>

definition sessions_ok :: "token_map \<Rightarrow> bool" where
  "sessions_ok m = list_all (\<lambda>e. createdAt (snd e) < expiresAt (snd e)) m"

subsection \<open>requireAuth (server.js 391-409)\<close>

text \<open>
  \<^verbatim>\<open>
  const token = req.headers['x-auth-token'] || req.body.token;
  if (!token) { return res.status(401).json({success: false, error: 'Authentication required'}); }
  if (!validateToken(token)) {
      return res.status(401).json({success: false, error: 'Invalid or expired token'});
  }
  next();
  \<close>
  The result \<open>None\<close> is \<^verbatim>\<open>next()\<close>: the request goes on to its route. The middleware has
  no \<^verbatim>\<open>try\<close>, an exception leaves it.
\<close>

definition requireAuth ::
  "token_map \<Rightarrow> int \<Rightarrow> jsval \<Rightarrow> jsval \<Rightarrow> js_error + (response option \<times> token_map)" where
  "requireAuth activeTokens now header body_token =
     (let token = (if truthy header then header else body_token) in
      if \<not> truthy token
      then Inr (Some \<lparr>status = 401, body = Failure ''Authentication required''\<rparr>, activeTokens)
      else case validateToken activeTokens now token of
             Inl e \<Rightarrow> Inl e
           | Inr (isValid, tokens') \<Rightarrow>
               if \<not> isValid
               then Inr (Some \<lparr>status = 401, body = Failure ''Invalid or expired token''\<rparr>,
                         tokens')
               else Inr (None, tokens'))"

subsection \<open>The server as a sequence of events\<close>

text \<open>
  Node runs every handler and every timer callback to completion, one after the other.
  An event is one request to an authentication route, one request through
  \<^verbatim>\<open>requireAuth\<close>, or one firing of the cleanup timer, with the values it reads from the
  request, the clock and the random source. \<open>handle\<close> gives the token map after the
  event, \<open>serve\<close> the map after a sequence of events.
\<close>

datatype event =
    VerifyPin "js_error + 8 word list" int int string jsval
  | ValidateToken int int jsval
  | Logout jsval
  | Protected int jsval jsval
  | Cleanup int

fun handle :: "(string \<Rightarrow> string) \<Rightarrow> config \<Rightarrow> token_map \<Rightarrow> event \<Rightarrow> token_map" where
  "handle sha cfg m (VerifyPin randomBytes now1 now2 req_ip pin) =
     tokens_after (verify_pin sha cfg randomBytes now1 now2 req_ip m pin)"
| "handle sha cfg m (ValidateToken now1 now2 token) =
     tokens_after (validate_token m now1 now2 token)"
| "handle sha cfg m (Logout token) = tokens_after (logout m token)"
| "handle sha cfg m (Protected now header body_token) =
     (case requireAuth m now header body_token of Inl e \<Rightarrow> m | Inr (r, tokens') \<Rightarrow> tokens')"
| "handle sha cfg m (Cleanup now) = sweep now m"

definition serve :: "(string \<Rightarrow> string) \<Rightarrow> config \<Rightarrow> token_map \<Rightarrow> event list \<Rightarrow> token_map" where
  "serve sha cfg m events = foldl (handle sha cfg) m events"

text \<open>
  The only key an event can add to the map: a \<^verbatim>\<open>verify-pin\<close> request whose random source
  delivered \<open>bytes\<close> stores, if the PIN is accepted, under the hexadecimal string of these
  bytes.
\<close>

fun issued :: "event \<Rightarrow> jsval option" where
  "issued (VerifyPin (Inr bytes) now1 now2 req_ip pin) = Some (JStr (toString_hex bytes))"
| "issued e = None"

section \<open>Properties\<close>

subsection \<open>The map operations\<close>

lemma Map_has_get: "Map_has m v \<longleftrightarrow> Map_get m v \<noteq> None"
  by (cases v) (auto simp: map_of_eq_None_iff)

lemma Map_delete_not_has: "\<not> Map_has (Map_delete m v) v"
  by (cases v) (auto simp: AList.delete_eq)

lemma Map_delete_subset: "set (Map_delete m v) \<subseteq> set m"
  by (cases v) (auto simp: AList.delete_eq)

lemma Map_delete_other: "k \<noteq> v \<Longrightarrow> Map_get (Map_delete m v) k = Map_get m k"
  by (cases v; cases k) auto

lemma Map_get_set: "map_of (Map_set m k v) k = Some v"
  by (simp add: Map_set_def update_conv')

lemma in_Map_set: "x \<in> set (Map_set m k v) \<Longrightarrow> x = (k, v) \<or> x \<in> set m"
  unfolding Map_set_def by (induction m) (auto split: if_splits)

lemma not_has_subset: "\<not> Map_has m tok \<Longrightarrow> set m' \<subseteq> set m \<Longrightarrow> \<not> Map_has m' tok"
  by (cases tok) auto

lemma unique_keys_Map_delete: "unique_keys m \<Longrightarrow> unique_keys (Map_delete m tok)"
  by (cases tok) (auto simp: unique_keys_def distinct_delete)

lemma unique_keys_filter: "unique_keys m \<Longrightarrow> unique_keys (filter P m)"
  by (simp add: unique_keys_def distinct_map_filter)

lemma length_delete_unique:
  "distinct (map fst m) \<Longrightarrow> k \<in> set (map fst m) \<Longrightarrow> Suc (length (AList.delete k m)) = length m"
proof (induction m)
  case Nil
  then show ?case by simp
next
  case (Cons e m)
  then show ?case by (cases e) (auto simp: image_iff)
qed

subsection \<open>validateToken never throws\<close>

text \<open>
  \<^verbatim>\<open>activeTokens.get\<close> is only reached after \<^verbatim>\<open>activeTokens.has\<close> succeeded, so the
  TypeError branch is dead and the function is a case distinction on the stored session.
\<close>

lemma validateToken_eq:
  "validateToken m now tok =
     Inr (case Map_get m tok of
            None \<Rightarrow> (False, m)
          | Some d \<Rightarrow> if \<not> truthy tok then (False, m)
                      else if now > expiresAt d then (False, Map_delete m tok) else (True, m))"
  by (auto simp: validateToken_def Map_has_get split: option.splits)

lemma validateToken_total: "\<exists>b m'. validateToken m now tok = Inr (b, m')"
  by (simp add: validateToken_eq)

lemma validateToken_store:
  "validateToken m now tok = Inr (b, m') \<Longrightarrow> m' = m \<or> m' = Map_delete m tok"
  by (auto simp: validateToken_eq split: option.splits if_splits)

lemma set_validateToken: "validateToken m now tok = Inr (b, m') \<Longrightarrow> set m' \<subseteq> set m"
  using Map_delete_subset [of m tok] by (auto dest: validateToken_store)

subsection \<open>The cleanup loop is a filter\<close>

text \<open>
  Whatever map the loop starts from, it removes exactly the keys of the visited entries
  that are past their expiry. On a map with one entry per key, visiting the map's own
  entries keeps exactly the entries with \<open>now \<le> expiresAt\<close>, in their order.
\<close>

lemma sweep_loop_filter:
  "sweep_loop now es m =
     filter (\<lambda>e. fst e \<notin> set (map fst (filter (\<lambda>x. now > expiresAt (snd x)) es))) m"
proof (induction es arbitrary: m)
  case Nil
  then show ?case by simp
next
  case (Cons e es)
  obtain k d where e: "e = (k, d)" by (cases e)
  show ?case
    unfolding e by (auto simp: Cons.IH AList.delete_eq intro!: filter_cong)
qed

lemma sweep_filter:
  assumes "unique_keys m"
  shows "sweep now m = filter (\<lambda>e. now \<le> expiresAt (snd e)) m"
proof -
  have "fst e \<notin> set (map fst (filter (\<lambda>x. now > expiresAt (snd x)) m))
          \<longleftrightarrow> now \<le> expiresAt (snd e)"
    if "e \<in> set m" for e
  proof
    assume "fst e \<notin> set (map fst (filter (\<lambda>x. now > expiresAt (snd x)) m))"
    with that show "now \<le> expiresAt (snd e)" by force
  next
    assume le: "now \<le> expiresAt (snd e)"
    show "fst e \<notin> set (map fst (filter (\<lambda>x. now > expiresAt (snd x)) m))"
    proof
      assume "fst e \<in> set (map fst (filter (\<lambda>x. now > expiresAt (snd x)) m))"
      then obtain x where x: "x \<in> set m" "now > expiresAt (snd x)" "fst x = fst e" by auto
      from assms x(1) that x(3) have "x = e"
        unfolding unique_keys_def by (metis eq_key_imp_eq_value prod.collapse)
      with x(2) le show False by simp
    qed
  qed
  then show ?thesis
    unfolding sweep_def sweep_loop_filter by (intro filter_cong) auto
qed

lemma set_sweep: "set (sweep now m) \<subseteq> set m"
  by (simp add: sweep_def sweep_loop_filter)

lemma sweep_get:
  assumes "unique_keys m"
  shows "Map_get (sweep now m) tok =
           (case Map_get m tok of None \<Rightarrow> None
            | Some d \<Rightarrow> if now \<le> expiresAt d then Some d else None)"
proof (cases tok)
  case (JStr k)
  have dist: "distinct (map fst m)" using assms by (simp add: unique_keys_def)
  have "map_of (filter (\<lambda>e. now \<le> expiresAt (snd e)) m) k =
          (case map_of m k of None \<Rightarrow> None
           | Some d \<Rightarrow> if now \<le> expiresAt d then Some d else None)"
    using dist
  proof (induction m)
    case Nil
    then show ?case by simp
  next
    case (Cons e m)
    then show ?case
      by (cases e) (auto simp: map_of_eq_None_iff image_iff split: option.splits)
  qed
  then show ?thesis using JStr assms by (simp add: sweep_filter)
qed simp_all

subsection \<open>What the handlers leave in the map\<close>

lemma set_validate_token: "set (tokens_after (validate_token m now1 now2 tok)) \<subseteq> set m"
proof (cases "validateToken m now1 tok")
  case (Inl e)
  then show ?thesis by (simp add: validate_token_def tokens_after_def)
next
  case (Inr r)
  obtain b m' where r: "r = (b, m')" by (cases r)
  from Inr r have "set m' \<subseteq> set m" by (auto dest: set_validateToken)
  with Inr r show ?thesis
    by (auto simp: validate_token_def tokens_after_def split: option.splits)
qed

lemma set_logout: "set (tokens_after (logout m tok)) \<subseteq> set m"
  using Map_delete_subset [of m tok] by (auto simp: logout_def tokens_after_def)

lemma set_verify_pin:
  "set (tokens_after (verify_pin sha cfg rb now1 now2 addr m pin))
     \<subseteq> set m \<union> {e. snd e = \<lparr>createdAt = now2, expiresAt = now1 + TOKEN_EXPIRY_MS cfg, ip = addr\<rparr>}"
  by (auto simp: verify_pin_def tokens_after_def Let_def generateToken_def
      split: jsval.splits sum.splits dest: in_Map_set)

lemma sessions_ok_subset: "sessions_ok m \<Longrightarrow> set m' \<subseteq> set m \<Longrightarrow> sessions_ok m'"
  by (auto simp: sessions_ok_def list_all_iff)

lemma set_handle:
  "set (handle sha cfg m e) \<subseteq> set m \<union> {x. issued e = Some (JStr (fst x))}"
proof (cases e)
  case (VerifyPin rb n1 n2 a p)
  then show ?thesis
    by (cases rb) (auto simp: verify_pin_def tokens_after_def Let_def generateToken_def
        split: jsval.splits dest: in_Map_set)
next
  case (ValidateToken n1 n2 t)
  then show ?thesis using set_validate_token [of m n1 n2 t] by auto
next
  case (Logout t)
  then show ?thesis using set_logout [of m t] by auto
next
  case (Protected n h b)
  let ?t = "if truthy h then h else b"
  obtain v m' where v: "validateToken m n ?t = Inr (v, m')" using validateToken_total by blast
  then have "set m' \<subseteq> set m" by (rule set_validateToken)
  then show ?thesis using Protected v by (auto simp: requireAuth_def Let_def)
next
  case (Cleanup n)
  then show ?thesis using set_sweep [of n m] by auto
qed

lemma not_has_serve:
  "\<not> Map_has m tok \<Longrightarrow> \<forall>e \<in> set es. issued e \<noteq> Some tok
     \<Longrightarrow> \<not> Map_has (serve sha cfg m es) tok"
proof (induction es arbitrary: m)
  case Nil
  then show ?case by (simp add: serve_def)
next
  case (Cons e es)
  have "\<not> Map_has (handle sha cfg m e) tok"
  proof (cases tok)
    case (JStr k)
    with Cons.prems set_handle [of sha cfg m e] show ?thesis by force
  qed simp_all
  with Cons show ?case by (simp add: serve_def)
qed

subsection \<open>Every map the server reaches has one entry per key\<close>

lemma unique_keys_handle: "unique_keys m \<Longrightarrow> unique_keys (handle sha cfg m e)"
proof (cases e)
  case (VerifyPin rb n1 n2 a p)
  assume "unique_keys m"
  then show ?thesis using VerifyPin
    by (auto simp: verify_pin_def tokens_after_def Let_def generateToken_def Map_set_def
        unique_keys_def distinct_update split: jsval.splits sum.splits)
next
  case (ValidateToken n1 n2 t)
  assume u: "unique_keys m"
  obtain b m' where v: "validateToken m n1 t = Inr (b, m')" using validateToken_total by blast
  then have "unique_keys m'" using u unique_keys_Map_delete by (auto dest: validateToken_store)
  then show ?thesis using ValidateToken v u
    by (auto simp: validate_token_def tokens_after_def split: option.splits)
next
  case (Logout t)
  assume "unique_keys m"
  then show ?thesis using Logout unique_keys_Map_delete
    by (auto simp: logout_def tokens_after_def)
next
  case (Protected n h b)
  assume u: "unique_keys m"
  let ?t = "if truthy h then h else b"
  obtain v m' where v: "validateToken m n ?t = Inr (v, m')" using validateToken_total by blast
  then have "unique_keys m'" using u unique_keys_Map_delete by (auto dest: validateToken_store)
  then show ?thesis using Protected v u
    by (auto simp: requireAuth_def Let_def)
next
  case (Cleanup n)
  assume "unique_keys m"
  then show ?thesis using Cleanup by (simp add: sweep_filter unique_keys_filter)
qed

lemma unique_keys_serve: "unique_keys (serve sha cfg [] es)"
proof -
  have "unique_keys m \<Longrightarrow> unique_keys (serve sha cfg m es)" for m
    unfolding serve_def by (induction es arbitrary: m) (auto simp: unique_keys_handle)
  then show ?thesis by (simp add: unique_keys_def)
qed

subsection \<open>Tokens and hashes\<close>

lemma length_toString_hex: "length (toString_hex bytes) = 2 * length bytes"
  by (induction bytes) (simp_all add: toString_hex_def hex_byte_def)

lemma toString_hex_sample: "toString_hex [0x00, 0x1f, 0xa0, 0xff] = ''001fa0ff''"
  by (simp add: toString_hex_def hex_byte_def hex_digit_def)


text \<open>
  The format test of \<^verbatim>\<open>verify-pin\<close> rejects every value that is not a string of length 4,
  whatever the digest function is: the hash plays no part in this answer.
\<close>

lemma verify_pin_bad_length:
  "\<forall>p. pin = JStr p \<longrightarrow> length p \<noteq> 4 \<Longrightarrow>
     verify_pin sha cfg rb now1 now2 addr m pin
       = (\<lparr>status = 400, body = Failure ''Invalid PIN format. PIN must be 4 digits.''\<rparr>, m, [])"
  by (cases pin) (auto simp: verify_pin_def)

section \<open>The claims\<close>

subsection \<open>C1: lazy expiry in validateToken\<close>

text \<open>
  C1 says that a stored token stops validating once the clock is greater than or equal to
  its \<open>expiresAt\<close>. The source compares with \<^verbatim>\<open>Date.now() > tokenData.expiresAt\<close>: at the
  instant \<open>now = expiresAt\<close> the token still validates and its entry stays.
\<close>

theorem validateToken_at_expiresAt:
  "validateToken [(''ab'', \<lparr>createdAt = 0, expiresAt = 10, ip = ''10.0.0.1''\<rparr>)] 10 (JStr ''ab'')
     = Inr (True, [(''ab'', \<lparr>createdAt = 0, expiresAt = 10, ip = ''10.0.0.1''\<rparr>)])"
  by (simp add: validateToken_def)

text \<open>
  C1, amended: for every non-empty token \<open>t\<close> present in the store with session \<open>d\<close>,
  \<open>validateToken\<close> returns false whenever the clock is strictly greater than
  \<open>expiresAt d\<close>, whether or not the cleanup has run, and that call deletes the entry;
  while \<open>now \<le> expiresAt d\<close> it returns true and leaves the store as it is. For every
  value absent from the store it returns false and leaves the store as it is.
\<close>

theorem validateToken_lazy_expiry:
  "(Map_get m (JStr t) = Some d \<and> t \<noteq> [] \<and> now > expiresAt d \<longrightarrow>
      validateToken m now (JStr t) = Inr (False, Map_delete m (JStr t))
      \<and> \<not> Map_has (Map_delete m (JStr t)) (JStr t))
   \<and> (Map_get m (JStr t) = Some d \<and> t \<noteq> [] \<and> now \<le> expiresAt d \<longrightarrow>
      validateToken m now (JStr t) = Inr (True, m))
   \<and> (\<not> Map_has m tok \<longrightarrow> validateToken m now tok = Inr (False, m))"
  using Map_delete_not_has [of m "JStr t"]
  by (auto simp: validateToken_eq Map_has_get simp del: Map_delete.simps)

text \<open>A stored token one millisecond past, one before its expiry, and an unknown token.\<close>

theorem validateToken_lazy_expiry_witness:
  "validateToken [(''ab'', \<lparr>createdAt = 0, expiresAt = 10, ip = ''10.0.0.1''\<rparr>)] 11 (JStr ''ab'')
     = Inr (False, [])
   \<and> validateToken [(''ab'', \<lparr>createdAt = 0, expiresAt = 10, ip = ''10.0.0.1''\<rparr>)] 9 (JStr ''ab'')
     = Inr (True, [(''ab'', \<lparr>createdAt = 0, expiresAt = 10, ip = ''10.0.0.1''\<rparr>)])
   \<and> validateToken [(''ab'', \<lparr>createdAt = 0, expiresAt = 10, ip = ''10.0.0.1''\<rparr>)] 11 (JStr ''cd'')
     = Inr (False, [(''ab'', \<lparr>createdAt = 0, expiresAt = 10, ip = ''10.0.0.1''\<rparr>)])"
  using validateToken_lazy_expiry
          [of "[(''ab'', \<lparr>createdAt = 0, expiresAt = 10, ip = ''10.0.0.1''\<rparr>)]" "''ab''"
              "\<lparr>createdAt = 0, expiresAt = 10, ip = ''10.0.0.1''\<rparr>" 11 "JStr ''cd''"]
        validateToken_lazy_expiry
          [of "[(''ab'', \<lparr>createdAt = 0, expiresAt = 10, ip = ''10.0.0.1''\<rparr>)]" "''ab''"
              "\<lparr>createdAt = 0, expiresAt = 10, ip = ''10.0.0.1''\<rparr>" 9 "JStr ''cd''"]
  by simp

subsection \<open>C2: the format test of verify-pin\<close>

text \<open>
  C2 says that every input that is not exactly four numeric characters, for example
  \<^verbatim>\<open>"12a4"\<close>, is answered with the format error before any hash is computed. The test
  of the source looks at the type and the length only. \<^verbatim>\<open>"12a4"\<close> is a string of length
  4: it passes the test, is hashed and compared, and the answer is never the status 400
  of the format error; with the default configuration (the digest function taken as the
  identity, which keeps different inputs apart as SHA-256 does) the answer is the 401 of
  a wrong PIN.
\<close>

theorem verify_pin_12a4:
  "status (fst (verify_pin sha cfg rb now1 now2 addr m (JStr ''12a4''))) \<noteq> 400
   \<and> verify_pin id
        \<lparr>env_TOKEN_EXPIRY_MS = None, env_SUPERVISOR_PIN_HASH = None, env_PIN_SALT = None\<rparr>
        rb now1 now2 addr m (JStr ''12a4'')
      = (\<lparr>status = 401, body = Failure ''Invalid PIN''\<rparr>, m, [FailedAttempt addr])"
  by (simp add: verify_pin_def hashPin_def SUPERVISOR_PIN_HASH_def env_or_def Let_def
      split: sum.splits)

text \<open>The request of the specification's scenario, with the default configuration.\<close>

theorem verify_pin_12a4_witness:
  "verify_pin id
     \<lparr>env_TOKEN_EXPIRY_MS = None, env_SUPERVISOR_PIN_HASH = None, env_PIN_SALT = None\<rparr>
     (Inr (replicate 32 0x1f)) 5000 5000 ''10.0.0.1'' [] (JStr ''12a4'')
    = (\<lparr>status = 401, body = Failure ''Invalid PIN''\<rparr>, [], [FailedAttempt ''10.0.0.1''])"
  using verify_pin_12a4 [of id _ "Inr (replicate 32 0x1f)" 5000 5000 "''10.0.0.1''" "[]"]
  by (rule conjunct2)

subsection \<open>C3: the right PIN is accepted, every other four-character input is refused\<close>



subsection \<open>C4: a fresh token validates\<close>

text \<open>
  C4: whenever \<open>verify_pin\<close>, reading the clock as \<open>now\<close> for the expiry and given the 32
  bytes of the random source, answers with a token, and the configured lifetime is
  positive, then at the same instant \<open>now\<close> \<open>validateToken\<close> returns true on that token
  and leaves the map as it is, the map holds the session made at issuance, and the
  \<^verbatim>\<open>validate-token\<close> route answers \<^verbatim>\<open>valid: true\<close> with that session's expiry and
  the remaining time.
\<close>

theorem validate_after_issue:
  assumes "verify_pin sha cfg (Inr bytes) now now2 addr m pin
             = (\<lparr>status = 200, body = PinAccepted token exp ttl\<rparr>, m', out)"
    and "length bytes = 32" and "0 < TOKEN_EXPIRY_MS cfg"
  shows "validateToken m' now (JStr token) = Inr (True, m')
         \<and> Map_get m' (JStr token)
             = Some \<lparr>createdAt = now2, expiresAt = now + TOKEN_EXPIRY_MS cfg, ip = addr\<rparr>
         \<and> validate_token m' now now (JStr token)
             = (\<lparr>status = 200, body = TokenValid exp (exp - now)\<rparr>, m', [])"
proof -
  from assms(1) have tok: "token = toString_hex bytes"
    and ex: "exp = now + TOKEN_EXPIRY_MS cfg"
    and m': "m' = Map_set m token \<lparr>createdAt = now2, expiresAt = exp, ip = addr\<rparr>"
    by (auto simp: verify_pin_def generateToken_def Let_def split: jsval.splits if_splits)
  from tok assms(2) have ne: "token \<noteq> []"
    using length_toString_hex [of bytes] by auto
  have get: "map_of m' token = Some \<lparr>createdAt = now2, expiresAt = exp, ip = addr\<rparr>"
    by (simp add: m' Map_get_set)
  have v: "validateToken m' now (JStr token) = Inr (True, m')"
    using ne assms(3) by (simp add: validateToken_eq get ex)
  show ?thesis
    using ne get v by (simp add: validate_token_def ex)
qed

text \<open>The scenario of the specification again: issue at 5000 with lifetime 1000, validate at 5000.\<close>

theorem validate_after_issue_witness:
  "verify_pin id
     \<lparr>env_TOKEN_EXPIRY_MS = Some 1000, env_SUPERVISOR_PIN_HASH = None, env_PIN_SALT = None\<rparr>
     (Inr (replicate 32 0x1f)) 5000 5000 ''10.0.0.1'' [] (JStr ''4698'')
    = (\<lparr>status = 200, body = PinAccepted (toString_hex (replicate 32 0x1f)) 6000 1000\<rparr>,
       [(toString_hex (replicate 32 0x1f),
         \<lparr>createdAt = 5000, expiresAt = 6000, ip = ''10.0.0.1''\<rparr>)],
       [Authenticated ''10.0.0.1''])
   \<and> validateToken
        [(toString_hex (replicate 32 0x1f),
          \<lparr>createdAt = 5000, expiresAt = 6000, ip = ''10.0.0.1''\<rparr>)]
        5000 (JStr (toString_hex (replicate 32 0x1f)))
      = Inr (True, [(toString_hex (replicate 32 0x1f),
                     \<lparr>createdAt = 5000, expiresAt = 6000, ip = ''10.0.0.1''\<rparr>)])"
proof -
  let ?cfg = "\<lparr>env_TOKEN_EXPIRY_MS = Some 1000, env_SUPERVISOR_PIN_HASH = None,
               env_PIN_SALT = None\<rparr>"
  let ?m' = "[(toString_hex (replicate 32 0x1f),
               \<lparr>createdAt = 5000, expiresAt = 6000, ip = ''10.0.0.1''\<rparr>)]"
  have e: "TOKEN_EXPIRY_MS ?cfg = 1000" by (simp add: TOKEN_EXPIRY_MS_def)
  have v: "verify_pin id ?cfg (Inr (replicate 32 0x1f)) 5000 5000 ''10.0.0.1'' [] (JStr ''4698'')
             = (\<lparr>status = 200, body = PinAccepted (toString_hex (replicate 32 0x1f)) 6000 1000\<rparr>,
                ?m', [Authenticated ''10.0.0.1''])"
    by (simp add: verify_pin_def hashPin_def SUPERVISOR_PIN_HASH_def env_or_def
        generateToken_def e Map_set_def)
  have l: "length (replicate 32 (0x1f :: 8 word)) = 32" by simp
  have p: "0 < TOKEN_EXPIRY_MS ?cfg" by (simp add: e)
  from validate_after_issue [OF v l p]
  have "validateToken ?m' 5000 (JStr (toString_hex (replicate 32 0x1f))) = Inr (True, ?m')"
    by (rule conjunct1)
  with v show ?thesis by (intro conjI)
qed

subsection \<open>C5: a revoked token never validates again\<close>

text \<open>
  C5: after the logout handler has run on a token, \<open>validateToken\<close> returns false on that
  token at every clock instant \<open>now\<close>, whatever the expiry of the removed session was,
  and leaves the map as it is. The same holds after any further sequence of events
  (logins, validations, logouts, protected requests, cleanups) in which no login stores
  a session under this very token again.
\<close>

theorem validate_after_logout:
  "validateToken (tokens_after (logout m tok)) now tok
     = Inr (False, tokens_after (logout m tok))
   \<and> ((\<forall>e \<in> set es. issued e \<noteq> Some tok) \<longrightarrow>
        validateToken (serve sha cfg (tokens_after (logout m tok)) es) now tok
          = Inr (False, serve sha cfg (tokens_after (logout m tok)) es))"
proof -
  have a: "\<not> truthy tok \<or> \<not> Map_has (tokens_after (logout m tok)) tok"
    using Map_delete_not_has [of m tok]
    by (auto simp: logout_def tokens_after_def simp del: Map_delete.simps)
  then have b: "\<not> truthy tok \<or> \<not> Map_has (serve sha cfg (tokens_after (logout m tok)) es) tok"
    if "\<forall>e \<in> set es. issued e \<noteq> Some tok"
    using that not_has_serve by blast
  show ?thesis using a b by (auto simp: validateToken_def)
qed

text \<open>
  A session that would live until 100 is revoked; a login of somebody else, a cleanup and a
  validation follow; at 50 the revoked token is refused.
\<close>

theorem validate_after_logout_witness:
  "issued (VerifyPin (Inr (replicate 32 0x1f)) 20 20 ''10.0.0.1'' (JStr ''4698''))
     \<noteq> Some (JStr ''ab'')
   \<and> issued (Cleanup 30) \<noteq> Some (JStr ''ab'')
   \<and> issued (ValidateToken 40 40 (JStr ''ab'')) \<noteq> Some (JStr ''ab'')
   \<and> validateToken
        (serve id
           \<lparr>env_TOKEN_EXPIRY_MS = None, env_SUPERVISOR_PIN_HASH = None, env_PIN_SALT = None\<rparr>
           (tokens_after
              (logout [(''ab'', \<lparr>createdAt = 0, expiresAt = 100, ip = ''10.0.0.1''\<rparr>)]
                 (JStr ''ab'')))
           [VerifyPin (Inr (replicate 32 0x1f)) 20 20 ''10.0.0.1'' (JStr ''4698''),
            Cleanup 30, ValidateToken 40 40 (JStr ''ab'')])
        50 (JStr ''ab'')
      = Inr (False,
          [(toString_hex (replicate 32 0x1f),
            \<lparr>createdAt = 20, expiresAt = 28800020, ip = ''10.0.0.1''\<rparr>)])"
proof -
  let ?cfg = "\<lparr>env_TOKEN_EXPIRY_MS = None, env_SUPERVISOR_PIN_HASH = None, env_PIN_SALT = None\<rparr>"
  let ?m = "[(''ab'', \<lparr>createdAt = 0, expiresAt = 100, ip = ''10.0.0.1''\<rparr>)]"
  let ?es = "[VerifyPin (Inr (replicate 32 0x1f)) 20 20 ''10.0.0.1'' (JStr ''4698''),
              Cleanup 30, ValidateToken 40 40 (JStr ''ab'')]"
  have t: "toString_hex (replicate 32 0x1f) \<noteq> ''ab''"
    using length_toString_hex [of "replicate 32 0x1f"] by auto
  have i: "\<forall>e \<in> set ?es. issued e \<noteq> Some (JStr ''ab'')"
    using t by simp
  have s: "serve id ?cfg (tokens_after (logout ?m (JStr ''ab''))) ?es
         = [(toString_hex (replicate 32 0x1f),
            \<lparr>createdAt = 20, expiresAt = 28800020, ip = ''10.0.0.1''\<rparr>)]"
    using t
    by (simp add: serve_def logout_def tokens_after_def verify_pin_def hashPin_def
        SUPERVISOR_PIN_HASH_def env_or_def generateToken_def TOKEN_EXPIRY_MS_def Map_set_def
        sweep_def validate_token_def validateToken_def)
  from validate_after_logout [where m = ?m and tok = "JStr ''ab''" and now = 50 and sha = id
      and cfg = ?cfg and es = ?es] i
  show ?thesis using t unfolding s by simp
qed

subsection \<open>C6: logout always succeeds and is idempotent\<close>

text \<open>
  C6: for every value sent as token (a stored token, an unknown or already revoked one,
  a missing field, a value that is not a string) the logout handler answers with the same
  200 response \<^verbatim>\<open>{success: true, message: 'Logged out successfully'}\<close>, and a second
  logout with the same value gives that response again and leaves the map exactly as the
  first one left it.
\<close>

theorem logout_idempotent:
  "fst (logout m tok) = \<lparr>status = 200, body = LoggedOut ''Logged out successfully''\<rparr>
   \<and> logout (tokens_after (logout m tok)) tok
       = (\<lparr>status = 200, body = LoggedOut ''Logged out successfully''\<rparr>,
          tokens_after (logout m tok), [])"
  using Map_delete_not_has [of m tok]
  by (auto simp: logout_def tokens_after_def simp del: Map_delete.simps)

text \<open>Logging out twice from a store that holds the token.\<close>

theorem logout_idempotent_witness:
  "logout [(''ab'', \<lparr>createdAt = 0, expiresAt = 100, ip = ''10.0.0.1''\<rparr>)] (JStr ''ab'')
     = (\<lparr>status = 200, body = LoggedOut ''Logged out successfully''\<rparr>, [], [TokenInvalidated])
   \<and> logout [] (JStr ''ab'')
     = (\<lparr>status = 200, body = LoggedOut ''Logged out successfully''\<rparr>, [], [])"
proof -
  let ?m = "[(''ab'', \<lparr>createdAt = 0, expiresAt = 100, ip = ''10.0.0.1''\<rparr>)]"
  have a: "logout ?m (JStr ''ab'')
     = (\<lparr>status = 200, body = LoggedOut ''Logged out successfully''\<rparr>, [], [TokenInvalidated])"
    by (simp add: logout_def)
  then have t: "tokens_after (logout ?m (JStr ''ab'')) = []"
    by (simp add: tokens_after_def)
  from logout_idempotent [of ?m "JStr ''ab''"]
  have "logout (tokens_after (logout ?m (JStr ''ab''))) (JStr ''ab'')
     = (\<lparr>status = 200, body = LoggedOut ''Logged out successfully''\<rparr>,
        tokens_after (logout ?m (JStr ''ab'')), [])"
    by (rule conjunct2)
  then have "logout [] (JStr ''ab'')
     = (\<lparr>status = 200, body = LoggedOut ''Logged out successfully''\<rparr>, [], [])"
    unfolding t .
  with a show ?thesis by (intro conjI)
qed

subsection \<open>C7: what the cleanup removes\<close>

text \<open>
  C7 says that no entry with \<open>expiresAt \<le> now\<close> is left after the cleanup. The loop
  deletes when \<^verbatim>\<open>now > data.expiresAt\<close>: an entry whose expiry is exactly the instant of
  the cleanup stays.
\<close>

theorem sweep_keeps_entry_at_expiresAt:
  "(''ab'', \<lparr>createdAt = 0, expiresAt = 10, ip = ''10.0.0.1''\<rparr>)
     \<in> set (sweep 10 [(''ab'', \<lparr>createdAt = 0, expiresAt = 10, ip = ''10.0.0.1''\<rparr>)])
   \<and> expiresAt \<lparr>createdAt = 0, expiresAt = 10, ip = ''10.0.0.1''\<rparr> \<le> 10"
  by (simp add: sweep_def)

text \<open>
  C7, amended: for every store (one entry per key) and every clock instant \<open>now\<close>, the
  store after the cleanup consists of exactly the entries with \<open>now \<le> expiresAt\<close>, in
  their order and unchanged: no entry with \<open>expiresAt < now\<close> remains, every entry with
  \<open>expiresAt \<ge> now\<close> is still there, and nothing is added.
\<close>

theorem sweep_result:
  assumes "unique_keys m"
  shows "sweep now m = filter (\<lambda>e. now \<le> expiresAt (snd e)) m
         \<and> (\<forall>e \<in> set (sweep now m). \<not> expiresAt (snd e) < now)
         \<and> (\<forall>e \<in> set m. now \<le> expiresAt (snd e) \<longrightarrow> e \<in> set (sweep now m))
         \<and> set (sweep now m) \<subseteq> set m"
  by (auto simp: sweep_filter [OF assms])

text \<open>Three sessions, cleanup at 11: the one that expired at 10 goes, those of 12 and 11 stay.\<close>

theorem sweep_result_witness:
  "unique_keys [(''ab'', \<lparr>createdAt = 0, expiresAt = 10, ip = ''10.0.0.1''\<rparr>),
                (''cd'', \<lparr>createdAt = 1, expiresAt = 12, ip = ''10.0.0.2''\<rparr>),
                (''ef'', \<lparr>createdAt = 2, expiresAt = 11, ip = ''10.0.0.3''\<rparr>)]
   \<and> sweep 11 [(''ab'', \<lparr>createdAt = 0, expiresAt = 10, ip = ''10.0.0.1''\<rparr>),
                (''cd'', \<lparr>createdAt = 1, expiresAt = 12, ip = ''10.0.0.2''\<rparr>),
                (''ef'', \<lparr>createdAt = 2, expiresAt = 11, ip = ''10.0.0.3''\<rparr>)]
       = [(''cd'', \<lparr>createdAt = 1, expiresAt = 12, ip = ''10.0.0.2''\<rparr>),
          (''ef'', \<lparr>createdAt = 2, expiresAt = 11, ip = ''10.0.0.3''\<rparr>)]"
proof -
  have u: "unique_keys [(''ab'', \<lparr>createdAt = 0, expiresAt = 10, ip = ''10.0.0.1''\<rparr>),
                (''cd'', \<lparr>createdAt = 1, expiresAt = 12, ip = ''10.0.0.2''\<rparr>),
                (''ef'', \<lparr>createdAt = 2, expiresAt = 11, ip = ''10.0.0.3''\<rparr>)]"
    by (simp add: unique_keys_def)
  show ?thesis using u sweep_result [OF u, of 11] by simp
qed

subsection \<open>C8: the cleanup does not change what validateToken answers\<close>

text \<open>
  C8: for every store (one entry per key), every value sent as token and every clock
  instant \<open>t\<close>, \<open>validateToken\<close> at \<open>t\<close> gives the same answer on the store swept at
  \<open>t\<close> as on the store itself; the same is true for a validation at any later instant
  \<open>t'\<close>. (\<open>map_sum (\<lambda>e. e) fst\<close> keeps the answer and drops the map.)
\<close>

theorem validate_independent_of_sweep:
  assumes "unique_keys m"
  shows "map_sum (\<lambda>e. e) fst (validateToken (sweep t m) t tok)
           = map_sum (\<lambda>e. e) fst (validateToken m t tok)
         \<and> (t \<le> t' \<longrightarrow>
              map_sum (\<lambda>e. e) fst (validateToken (sweep t m) t' tok)
                = map_sum (\<lambda>e. e) fst (validateToken m t' tok))"
  by (auto simp: validateToken_eq sweep_get [OF assms] split: option.splits)

text \<open>An expired and a live session, cleanup and validation at 11.\<close>

theorem validate_independent_of_sweep_witness:
  "unique_keys [(''ab'', \<lparr>createdAt = 0, expiresAt = 10, ip = ''10.0.0.1''\<rparr>),
                (''cd'', \<lparr>createdAt = 1, expiresAt = 12, ip = ''10.0.0.2''\<rparr>)]
   \<and> map_sum (\<lambda>e. e) fst
        (validateToken
           (sweep 11 [(''ab'', \<lparr>createdAt = 0, expiresAt = 10, ip = ''10.0.0.1''\<rparr>),
                      (''cd'', \<lparr>createdAt = 1, expiresAt = 12, ip = ''10.0.0.2''\<rparr>)])
           11 (JStr ''ab''))
       = Inr False
   \<and> map_sum (\<lambda>e. e) fst
        (validateToken
           (sweep 11 [(''ab'', \<lparr>createdAt = 0, expiresAt = 10, ip = ''10.0.0.1''\<rparr>),
                      (''cd'', \<lparr>createdAt = 1, expiresAt = 12, ip = ''10.0.0.2''\<rparr>)])
           11 (JStr ''cd''))
       = Inr True"
proof -
  have u: "unique_keys [(''ab'', \<lparr>createdAt = 0, expiresAt = 10, ip = ''10.0.0.1''\<rparr>),
                (''cd'', \<lparr>createdAt = 1, expiresAt = 12, ip = ''10.0.0.2''\<rparr>)]"
    by (simp add: unique_keys_def)
  show ?thesis
    using u validate_independent_of_sweep [OF u, of 11 "JStr ''ab''" 11]
      validate_independent_of_sweep [OF u, of 11 "JStr ''cd''" 11]
    by (simp add: validateToken_def)
qed

subsection \<open>C9: expiresAt and createdAt of a stored session\<close>

text \<open>
  C9 says that every stored session has \<open>expiresAt > createdAt\<close> for every configured
  lifetime. The lifetime is \<^verbatim>\<open>parseInt(process.env.TOKEN_EXPIRY_MS) || ...\<close>, and no
  test keeps it positive: with \<^verbatim>\<open>TOKEN_EXPIRY_MS=-5\<close> a successful login at 5000 stores
  a session with \<open>createdAt = 5000\<close> and \<open>expiresAt = 4995\<close>.
\<close>

theorem negative_ttl_session:
  "\<not> sessions_ok (tokens_after (verify_pin id
        \<lparr>env_TOKEN_EXPIRY_MS = Some (- 5), env_SUPERVISOR_PIN_HASH = None, env_PIN_SALT = None\<rparr>
        (Inr (replicate 32 0x1f)) 5000 5000 ''10.0.0.1'' [] (JStr ''4698'')))"
  by (simp add: verify_pin_def tokens_after_def hashPin_def SUPERVISOR_PIN_HASH_def env_or_def
      generateToken_def TOKEN_EXPIRY_MS_def Map_set_def sessions_ok_def)

text \<open>
  C9, amended: a session is stored with \<open>expiresAt = now1 + TOKEN_EXPIRY_MS\<close> and
  \<open>createdAt = now2\<close>, the two clock readings of the login. If every stored session has
  \<open>expiresAt > createdAt\<close>, then so has every session after a login for which
  \<open>now2 < now1 + TOKEN_EXPIRY_MS\<close> (in particular for every positive lifetime when both
  readings are the same instant), and so has every session after \<open>validateToken\<close>, after
  a logout and after the cleanup: these three only remove entries, every entry they
  leave was there before with the same fields.
\<close>

theorem session_invariant:
  assumes "sessions_ok m"
  shows "(now2 < now1 + TOKEN_EXPIRY_MS cfg \<longrightarrow>
            sessions_ok (tokens_after (verify_pin sha cfg rb now1 now2 addr m pin)))
       \<and> (\<forall>b m'. validateToken m now tok = Inr (b, m') \<longrightarrow> set m' \<subseteq> set m \<and> sessions_ok m')
       \<and> set (tokens_after (logout m tok)) \<subseteq> set m \<and> sessions_ok (tokens_after (logout m tok))
       \<and> set (sweep now m) \<subseteq> set m \<and> sessions_ok (sweep now m)"
proof -
  have "sessions_ok (tokens_after (verify_pin sha cfg rb now1 now2 addr m pin))"
    if "now2 < now1 + TOKEN_EXPIRY_MS cfg"
    using assms that set_verify_pin [of sha cfg rb now1 now2 addr m pin]
    by (auto simp: sessions_ok_def list_all_iff)
  then show ?thesis
    using assms set_logout [of m tok] set_sweep [of now m]
    by (auto dest: set_validateToken intro: sessions_ok_subset)
qed

text \<open>A login at 5000 with lifetime 1000 into a store that holds one session.\<close>

theorem session_invariant_witness:
  "sessions_ok [(''ab'', \<lparr>createdAt = 0, expiresAt = 10, ip = ''10.0.0.1''\<rparr>)]
   \<and> (5000::int) < 5000 + TOKEN_EXPIRY_MS
        \<lparr>env_TOKEN_EXPIRY_MS = Some 1000, env_SUPERVISOR_PIN_HASH = None, env_PIN_SALT = None\<rparr>
   \<and> sessions_ok (tokens_after (verify_pin id
        \<lparr>env_TOKEN_EXPIRY_MS = Some 1000, env_SUPERVISOR_PIN_HASH = None, env_PIN_SALT = None\<rparr>
        (Inr (replicate 32 0x1f)) 5000 5000 ''10.0.0.2''
        [(''ab'', \<lparr>createdAt = 0, expiresAt = 10, ip = ''10.0.0.1''\<rparr>)] (JStr ''4698'')))
   \<and> tokens_after (verify_pin id
        \<lparr>env_TOKEN_EXPIRY_MS = Some 1000, env_SUPERVISOR_PIN_HASH = None, env_PIN_SALT = None\<rparr>
        (Inr (replicate 32 0x1f)) 5000 5000 ''10.0.0.2''
        [(''ab'', \<lparr>createdAt = 0, expiresAt = 10, ip = ''10.0.0.1''\<rparr>)] (JStr ''4698''))
      = [(''ab'', \<lparr>createdAt = 0, expiresAt = 10, ip = ''10.0.0.1''\<rparr>),
         (toString_hex (replicate 32 0x1f),
          \<lparr>createdAt = 5000, expiresAt = 6000, ip = ''10.0.0.2''\<rparr>)]"
proof -
  let ?cfg = "\<lparr>env_TOKEN_EXPIRY_MS = Some 1000, env_SUPERVISOR_PIN_HASH = None,
               env_PIN_SALT = None\<rparr>"
  let ?m = "[(''ab'', \<lparr>createdAt = 0, expiresAt = 10, ip = ''10.0.0.1''\<rparr>)]"
  have t: "toString_hex (replicate 32 0x1f) \<noteq> ''ab''"
    using length_toString_hex [of "replicate 32 0x1f"] by auto
  have e: "TOKEN_EXPIRY_MS ?cfg = 1000" by (simp add: TOKEN_EXPIRY_MS_def)
  have ok: "sessions_ok ?m" by (simp add: sessions_ok_def)
  have lt: "(5000::int) < 5000 + TOKEN_EXPIRY_MS ?cfg" by (simp add: e)
  have v: "tokens_after (verify_pin id ?cfg (Inr (replicate 32 0x1f)) 5000 5000 ''10.0.0.2'' ?m
             (JStr ''4698''))
           = [(''ab'', \<lparr>createdAt = 0, expiresAt = 10, ip = ''10.0.0.1''\<rparr>),
              (toString_hex (replicate 32 0x1f),
               \<lparr>createdAt = 5000, expiresAt = 6000, ip = ''10.0.0.2''\<rparr>)]"
    using t by (auto simp: verify_pin_def hashPin_def SUPERVISOR_PIN_HASH_def env_or_def
        generateToken_def e Map_set_def tokens_after_def)
  from session_invariant [OF ok, of 5000 5000 ?cfg id "Inr (replicate 32 0x1f)" "''10.0.0.2''"
      "JStr ''4698''"]
  have "5000 < 5000 + TOKEN_EXPIRY_MS ?cfg \<longrightarrow>
          sessions_ok (tokens_after (verify_pin id ?cfg (Inr (replicate 32 0x1f)) 5000 5000
            ''10.0.0.2'' ?m (JStr ''4698'')))"
    by (rule conjunct1)
  with lt have "sessions_ok (tokens_after (verify_pin id ?cfg (Inr (replicate 32 0x1f)) 5000 5000
          ''10.0.0.2'' ?m (JStr ''4698'')))"
    by simp
  with ok lt v show ?thesis by (intro conjI)
qed

subsection \<open>C10: the frame of validateToken\<close>

text \<open>
  C10: for every store \<open>m\<close>, clock instant and value \<open>tok\<close>, \<open>validateToken\<close> returns
  (it does not throw), and the store \<open>m'\<close> it leaves is either \<open>m\<close> itself or \<open>m\<close>
  without the entry keyed by \<open>tok\<close>, which was present and is answered with false. In
  both cases every entry of \<open>m'\<close> is an entry of \<open>m\<close> (nothing is created, no session is
  modified), every key other than \<open>tok\<close> has the same session in \<open>m'\<close> as in \<open>m\<close>
  (nothing else is deleted), and on a store with one entry per key at most one entry is
  gone.
\<close>

theorem validateToken_frame:
  "(\<exists>b m'. validateToken m now tok = Inr (b, m'))
   \<and> (\<forall>b m'. validateToken m now tok = Inr (b, m') \<longrightarrow>
         (m' = m \<or> (m' = Map_delete m tok \<and> Map_has m tok \<and> \<not> b))
         \<and> set m' \<subseteq> set m
         \<and> (\<forall>k. k \<noteq> tok \<longrightarrow> Map_get m' k = Map_get m k)
         \<and> (unique_keys m \<longrightarrow> length m \<le> length m' + 1))"
proof -
  have len: "length m \<le> length (Map_delete m tok) + 1" if "unique_keys m" "Map_has m tok"
    using that length_delete_unique [of m] by (cases tok) (auto simp: unique_keys_def)
  show ?thesis
    using Map_delete_subset [of m tok] Map_delete_other [of _ tok m] len
    by (auto simp: validateToken_eq Map_has_get simp del: Map_delete.simps
        split: option.splits if_splits)
qed

text \<open>Validation of an expired token at 11 removes its entry and keeps the other one.\<close>

theorem validateToken_frame_witness:
  "validateToken [(''ab'', \<lparr>createdAt = 0, expiresAt = 10, ip = ''10.0.0.1''\<rparr>),
                  (''cd'', \<lparr>createdAt = 1, expiresAt = 12, ip = ''10.0.0.2''\<rparr>)] 11 (JStr ''ab'')
     = Inr (False, [(''cd'', \<lparr>createdAt = 1, expiresAt = 12, ip = ''10.0.0.2''\<rparr>)])
   \<and> unique_keys [(''ab'', \<lparr>createdAt = 0, expiresAt = 10, ip = ''10.0.0.1''\<rparr>),
                  (''cd'', \<lparr>createdAt = 1, expiresAt = 12, ip = ''10.0.0.2''\<rparr>)]
   \<and> Map_get [(''cd'', \<lparr>createdAt = 1, expiresAt = 12, ip = ''10.0.0.2''\<rparr>)] (JStr ''cd'')
     = Map_get [(''ab'', \<lparr>createdAt = 0, expiresAt = 10, ip = ''10.0.0.1''\<rparr>),
                (''cd'', \<lparr>createdAt = 1, expiresAt = 12, ip = ''10.0.0.2''\<rparr>)] (JStr ''cd'')"
proof -
  let ?m = "[(''ab'', \<lparr>createdAt = 0, expiresAt = 10, ip = ''10.0.0.1''\<rparr>),
             (''cd'', \<lparr>createdAt = 1, expiresAt = 12, ip = ''10.0.0.2''\<rparr>)]"
  let ?m' = "[(''cd'', \<lparr>createdAt = 1, expiresAt = 12, ip = ''10.0.0.2''\<rparr>)]"
  have v: "validateToken ?m 11 (JStr ''ab'') = Inr (False, ?m')"
    by (simp add: validateToken_def)
  have u: "unique_keys ?m" by (simp add: unique_keys_def)
  have d: "JStr ''cd'' \<noteq> JStr ''ab''" by simp
  note f = validateToken_frame [of ?m 11 "JStr ''ab''", THEN conjunct2, rule_format, OF v]
  have "Map_get ?m' (JStr ''cd'') = Map_get ?m (JStr ''cd'')"
    by (rule f [THEN conjunct2, THEN conjunct2, THEN conjunct1, rule_format, OF d])
  with v u show ?thesis by (intro conjI)
qed

end
